theory Spec2Isabelle
  imports Main
begin

section \<open>Data model\<close>

text \<open>
  The batch code of \<^verbatim>\<open>src/transaction/transaction-batch.ts\<close> works on values whose
  type declarations live in \<^verbatim>\<open>models/txo-types\<close> and \<^verbatim>\<open>models/formatted-types\<close>.
  The records below carry the fields the batch code reads, named as the source names them
  (with a prefix where two records share a field name). TypeScript's \<^verbatim>\<open>bigint\<close> is an
  unbounded integer, hence \<^typ>\<open>int\<close>; an array index or length is a \<^typ>\<open>nat\<close>.
\<close>

datatype TokenType = ERC20 | ERC721 | ERC1155

record TokenData =
  tokenType :: TokenType
  tokenAddress :: string
  tokenSubID :: string

record TransactNote =
  note_value :: int
  note_tokenHash :: string
  note_tokenData :: TokenData

record UnshieldData =
  toAddress :: string
  unshield_value :: int
  unshield_tokenData :: TokenData

record TXO =
  txo_tree :: nat
  txo_position :: nat
  txo_note :: TransactNote

record TreeBalance =
  balance :: int
  utxos :: "TXO list"

record SpendingSolutionGroup =
  spendingTree :: nat
  group_utxos :: "TXO list"
  tokenOutputs :: "TransactNote list"
  unshieldValue :: int
  group_tokenData :: TokenData

record AdaptID =
  contract :: string
  parameters :: string

record Chain =
  chain_type :: nat
  chain_id :: nat

text \<open>The private fields of class \<^verbatim>\<open>TransactionBatch\<close>.\<close>

record TransactionBatch =
  adaptID :: AdaptID
  batch_chain :: Chain
  outputs :: "TransactNote list"
  unshieldDataMap :: "string \<rightharpoonup> UnshieldData"
  overallBatchMinGasPrice :: int

text \<open>
  Every \<^verbatim>\<open>throw\<close> of the file is a constructor; \<open>HelperError\<close> stands for an
  exception raised inside one of the imported helpers.
\<close>

datatype error =
    DuplicateUnshield
  | ZeroUnshieldValue
  | NoBalanceERC20 string
  | NoBalanceNFT string
  | BalanceTooLowERC20 string
  | BalanceTooLowNFT
  | NoSpendingSolutions
  | CouldNotSatisfy
  | Requires3Outputs
  | ConsolidateBalance
  | HelperError string

text \<open>
  The functions the batch imports from \<^verbatim>\<open>note/note-util\<close>, \<^verbatim>\<open>solutions/simple-solutions\<close>,
  \<^verbatim>\<open>solutions/nullifiers\<close> and \<^verbatim>\<open>solutions/complex-solutions\<close> are parameters of the
  model. A helper that mutates an array argument returns the array's new contents.
\<close>

record helpers =
  getTokenDataHash :: "TokenData \<Rightarrow> string"
  findExactSolutionsOverTargetValue :: "TreeBalance \<Rightarrow> int \<Rightarrow> error + TXO list option"
  isValidFor3Outputs :: "nat \<Rightarrow> bool"
  createSpendingSolutionGroupsForOutput ::
    "TokenData \<Rightarrow> TreeBalance list \<Rightarrow> TransactNote \<Rightarrow> TransactNote list \<Rightarrow> string list
      \<Rightarrow> error + (SpendingSolutionGroup list \<times> TransactNote list \<times> string list)"
  createSpendingSolutionGroupsForUnshield ::
    "TokenData \<Rightarrow> TreeBalance list \<Rightarrow> int \<Rightarrow> string list \<Rightarrow> error + SpendingSolutionGroup list"

section \<open>Batch state: outputs, unshield data, adapt ID\<close>

definition newTransactionBatch :: "Chain \<Rightarrow> int \<Rightarrow> TransactionBatch" where
  "newTransactionBatch c minGasPrice =
     \<lparr>adaptID = \<lparr>contract = ''0x0000000000000000000000000000000000000000'',
                 parameters = ''0x0000000000000000000000000000000000000000000000000000000000000000''\<rparr>,
      batch_chain = c, outputs = [], unshieldDataMap = Map.empty,
      overallBatchMinGasPrice = minGasPrice\<rparr>"

definition addOutput :: "TransactNote \<Rightarrow> TransactionBatch \<Rightarrow> TransactionBatch" where
  "addOutput n b = b\<lparr>outputs := outputs b @ [n]\<rparr>"

definition resetOutputs :: "TransactionBatch \<Rightarrow> TransactionBatch" where
  "resetOutputs b = b\<lparr>outputs := []\<rparr>"

text \<open>
  \<^verbatim>\<open>addUnshieldData\<close> returns what the call raised or returned, and the batch as the
  call leaves it.
\<close>

definition addUnshieldData ::
  "helpers \<Rightarrow> UnshieldData \<Rightarrow> TransactionBatch \<Rightarrow> (error + unit) \<times> TransactionBatch" where
  "addUnshieldData h unshieldData b =
     (let tokenHash = getTokenDataHash h (unshield_tokenData unshieldData) in
      if unshieldDataMap b tokenHash \<noteq> None then (Inl DuplicateUnshield, b)
      else if unshield_value unshieldData = 0 then (Inl ZeroUnshieldValue, b)
      else (Inr (), b\<lparr>unshieldDataMap := (unshieldDataMap b)(tokenHash \<mapsto> unshieldData)\<rparr>))"

definition resetUnshieldData :: "TransactionBatch \<Rightarrow> TransactionBatch" where
  "resetUnshieldData b = b\<lparr>unshieldDataMap := Map.empty\<rparr>"

definition unshieldTotal :: "TransactionBatch \<Rightarrow> string \<Rightarrow> int" where
  "unshieldTotal b tokenHash =
     (case unshieldDataMap b tokenHash of Some u \<Rightarrow> unshield_value u | None \<Rightarrow> 0)"

definition setAdaptID :: "AdaptID \<Rightarrow> TransactionBatch \<Rightarrow> TransactionBatch" where
  "setAdaptID a b = b\<lparr>adaptID := a\<rparr>"

section \<open>Spending solution groups\<close>

text \<open>
  Modelled from the spec: \<^verbatim>\<open>calculateTotalSpend\<close> of \<^verbatim>\<open>solutions/utxos\<close> is not among the
  sources. The spec's group invariant speaks of \<open>\<Sigma> utxos.value\<close>: the total spend of a UTXO
  list is the sum of the values of its notes, folded from zero as the batch folds its
  other sums.
\<close>

definition calculateTotalSpend :: "TXO list \<Rightarrow> int" where
  "calculateTotalSpend us = foldl (\<lambda>left right. left + note_value (txo_note right)) 0 us"

text \<open>
  The \<^verbatim>\<open>forEach\<close> of \<^verbatim>\<open>createSimpleSatisfyingUTXOGroup\<close> (and of the earlier
  \<^verbatim>\<open>createSatisfyingUTXOGroup\<close>): the callback runs on every tree balance with its
  index, and assigns \<^verbatim>\<open>spendingTree\<close> and \<^verbatim>\<open>utxos\<close> whenever the search returns a
  solution (an array, also an empty one, is truthy). The iteration has no early exit; only
  an exception of the search ends it. \<open>search\<close> is the search as the callback calls it,
  the required amount already supplied.
\<close>

fun forEachTree ::
  "(TreeBalance \<Rightarrow> error + TXO list option) \<Rightarrow> TreeBalance list \<Rightarrow> nat
    \<Rightarrow> nat option \<times> TXO list option \<Rightarrow> error + (nat option \<times> TXO list option)" where
  "forEachTree search [] i st = Inr st"
| "forEachTree search (treeBalance # rest) i st =
     (case search treeBalance of
        Inl e \<Rightarrow> Inl e
      | Inr None \<Rightarrow> forEachTree search rest (Suc i) st
      | Inr (Some solutions) \<Rightarrow> forEachTree search rest (Suc i) (Some i, Some solutions))"

definition createSimpleSatisfyingUTXOGroup ::
  "helpers \<Rightarrow> TreeBalance list \<Rightarrow> int \<Rightarrow> error + (TXO list \<times> nat \<times> int)" where
  "createSimpleSatisfyingUTXOGroup h treeSortedBalances amountRequired =
     (case forEachTree (\<lambda>treeBalance. findExactSolutionsOverTargetValue h treeBalance amountRequired)
             treeSortedBalances 0 (None, None) of
        Inl e \<Rightarrow> Inl e
      | Inr (treeSet, utxosSet) \<Rightarrow>
          (case utxosSet of
             None \<Rightarrow> Inl NoSpendingSolutions
           | Some us \<Rightarrow>
               (case treeSet of
                  None \<Rightarrow> Inl NoSpendingSolutions
                | Some t \<Rightarrow> Inr (us, t, calculateTotalSpend us))))"

text \<open>The body of the \<^verbatim>\<open>try\<close> block of \<^verbatim>\<open>createSimpleSpendingSolutionGroupsIfPossible\<close>.\<close>

definition simpleGroupTry ::
  "helpers \<Rightarrow> TransactionBatch \<Rightarrow> TokenData \<Rightarrow> string \<Rightarrow> TransactNote list
    \<Rightarrow> TreeBalance list \<Rightarrow> int \<Rightarrow> error + SpendingSolutionGroup" where
  "simpleGroupTry h b tokenData tokenHash tokenOuts treeSortedBalances totalRequired =
     (case createSimpleSatisfyingUTXOGroup h treeSortedBalances totalRequired of
        Inl e \<Rightarrow> Inl e
      | Inr (us, t, amount) \<Rightarrow>
          if amount < totalRequired then Inl CouldNotSatisfy
          else if \<not> isValidFor3Outputs h (length us) \<and> length (outputs b) > 0
                  \<and> unshieldTotal b tokenHash > 0
          then Inl Requires3Outputs
          else Inr \<lparr>spendingTree = t, group_utxos = us, tokenOutputs = tokenOuts,
                    unshieldValue = unshieldTotal b tokenHash, group_tokenData = tokenData\<rparr>)"

text \<open>The \<^verbatim>\<open>catch\<close> clause turns every exception of the body into \<^verbatim>\<open>undefined\<close>.\<close>

definition createSimpleSpendingSolutionGroupsIfPossible ::
  "helpers \<Rightarrow> TransactionBatch \<Rightarrow> TokenData \<Rightarrow> string \<Rightarrow> TransactNote list
    \<Rightarrow> TreeBalance list \<Rightarrow> int \<Rightarrow> error + SpendingSolutionGroup option" where
  "createSimpleSpendingSolutionGroupsIfPossible h b tokenData tokenHash tokenOuts
       treeSortedBalances totalRequired =
     (case simpleGroupTry h b tokenData tokenHash tokenOuts treeSortedBalances totalRequired of
        Inl err \<Rightarrow> Inr None
      | Inr g \<Rightarrow> Inr (Some g))"

text \<open>
  The \<^verbatim>\<open>while\<close> loop of \<^verbatim>\<open>createComplexSatisfyingSpendingSolutionGroups\<close>. Its state is
  the three local arrays \<^verbatim>\<open>remainingTokenOutputs\<close>, \<^verbatim>\<open>excludedUTXOIDs\<close> and
  \<^verbatim>\<open>spendingSolutionGroups\<close>; the helper mutates the first two. Nothing in the loop bounds
  the number of rounds, so a run that never leaves the loop is the value \<open>None\<close>.
\<close>

partial_function (option) complexLoop ::
  "helpers \<Rightarrow> TokenData \<Rightarrow> TreeBalance list
    \<Rightarrow> TransactNote list \<times> string list \<times> SpendingSolutionGroup list
    \<Rightarrow> (error + TransactNote list \<times> string list \<times> SpendingSolutionGroup list) option" where
  "complexLoop h tokenData treeSortedBalances st =
     (case st of (remaining, excluded, groups) \<Rightarrow>
        if length remaining > 0 then
          (case createSpendingSolutionGroupsForOutput h tokenData treeSortedBalances
                  (hd remaining) remaining excluded of
             Inl e \<Rightarrow> Some (Inl e)
           | Inr (outputGroups, remaining', excluded') \<Rightarrow>
               if length outputGroups = 0 then Some (Inr (remaining', excluded', groups))
               else complexLoop h tokenData treeSortedBalances
                      (remaining', excluded', groups @ outputGroups))
        else Some (Inr st))"

definition createComplexSatisfyingSpendingSolutionGroups ::
  "helpers \<Rightarrow> TransactionBatch \<Rightarrow> TokenData \<Rightarrow> TransactNote list \<Rightarrow> TreeBalance list
    \<Rightarrow> (error + SpendingSolutionGroup list) option" where
  "createComplexSatisfyingSpendingSolutionGroups h b tokenData tokenOuts treeSortedBalances =
     (case complexLoop h tokenData treeSortedBalances (tokenOuts, [], []) of
        None \<Rightarrow> None
      | Some (Inl e) \<Rightarrow> Some (Inl e)
      | Some (Inr (remaining, excluded, groups)) \<Rightarrow>
          if length remaining > 0 then Some (Inl ConsolidateBalance)
          else
            (let tokenHash = getTokenDataHash h tokenData in
             if unshieldDataMap b tokenHash \<noteq> None then
               (case createSpendingSolutionGroupsForUnshield h tokenData treeSortedBalances
                       (unshieldTotal b tokenHash) excluded of
                  Inl e \<Rightarrow> Some (Inl e)
                | Inr unshieldGroups \<Rightarrow>
                    if length unshieldGroups = 0 then Some (Inl ConsolidateBalance)
                    else Some (Inr (groups @ unshieldGroups)))
             else Some (Inr groups)))"

text \<open>
  \<^verbatim>\<open>generateValidSpendingSolutionGroups\<close>. The wallet's answer to
  \<^verbatim>\<open>balancesByTree(chain)\<close> is the map \<open>balances\<close>, from token hash to the balances of
  that token per tree, indexed by tree number.
\<close>

definition tokenOutputsOf :: "TransactionBatch \<Rightarrow> string \<Rightarrow> TransactNote list" where
  "tokenOutputsOf b tokenHash = filter (\<lambda>n. note_tokenHash n = tokenHash) (outputs b)"

definition outputTotal :: "TransactNote list \<Rightarrow> int" where
  "outputTotal tokenOuts = foldl (\<lambda>left right. left + note_value right) 0 tokenOuts"

definition totalRequiredOf :: "TransactionBatch \<Rightarrow> string \<Rightarrow> int" where
  "totalRequiredOf b tokenHash = outputTotal (tokenOutputsOf b tokenHash) + unshieldTotal b tokenHash"

definition tokenBalance :: "TreeBalance list \<Rightarrow> int" where
  "tokenBalance treeSortedBalances =
     foldl (\<lambda>left right. left + balance right) 0 treeSortedBalances"

definition generateValidSpendingSolutionGroups ::
  "helpers \<Rightarrow> (string \<rightharpoonup> TreeBalance list) \<Rightarrow> TransactionBatch \<Rightarrow> TokenData
    \<Rightarrow> (error + SpendingSolutionGroup list) option" where
  "generateValidSpendingSolutionGroups h balances b tokenData =
     (let tokenHash = getTokenDataHash h tokenData;
          tokenOuts = tokenOutputsOf b tokenHash;
          totalRequired = totalRequiredOf b tokenHash
      in case balances tokenHash of
           None \<Rightarrow>
             (case tokenType tokenData of
                ERC20 \<Rightarrow> Some (Inl (NoBalanceERC20 (tokenAddress tokenData)))
              | ERC721 \<Rightarrow> Some (Inl (NoBalanceNFT tokenHash))
              | ERC1155 \<Rightarrow> Some (Inl (NoBalanceNFT tokenHash)))
         | Some treeSortedBalances \<Rightarrow>
             if totalRequired > tokenBalance treeSortedBalances then
               (case tokenType tokenData of
                  ERC20 \<Rightarrow> Some (Inl (BalanceTooLowERC20 (tokenAddress tokenData)))
                | ERC721 \<Rightarrow> Some (Inl BalanceTooLowNFT)
                | ERC1155 \<Rightarrow> Some (Inl BalanceTooLowNFT))
             else
               (case createSimpleSpendingSolutionGroupsIfPossible h b tokenData tokenHash
                       tokenOuts treeSortedBalances totalRequired of
                  Inl e \<Rightarrow> Some (Inl e)
                | Inr (Some g) \<Rightarrow> Some (Inr [g])
                | Inr None \<Rightarrow>
                    createComplexSatisfyingSpendingSolutionGroups h b tokenData tokenOuts
                      treeSortedBalances))"

section \<open>The earlier revision of the batch\<close>

text \<open>
  The first revision of the file has one token and one withdraw total per batch. Its
  \<^verbatim>\<open>createSatisfyingUTXOGroup\<close> and \<^verbatim>\<open>createSingleSpendingSolutionGroupIfPossible\<close>
  have the shape of the simple path above; \<^verbatim>\<open>findSolutions\<close> of \<^verbatim>\<open>./solutions\<close> is
  a parameter. The record holds the two fields these methods read.
\<close>

record LegacyBatch =
  legacy_outputs :: "TransactNote list"
  withdrawTotal :: int

record LegacyGroup =
  legacy_utxos :: "TXO list"
  legacy_spendingTree :: nat
  withdrawValue :: int
  legacy_group_outputs :: "TransactNote list"

datatype legacy_error = MustConsolidate | LegacyCouldNotSatisfy | LegacyHelperError error

definition createSatisfyingUTXOGroup ::
  "(TreeBalance \<Rightarrow> int \<Rightarrow> string list \<Rightarrow> error + TXO list option) \<Rightarrow> TreeBalance list \<Rightarrow> int
    \<Rightarrow> string list \<Rightarrow> legacy_error + (TXO list \<times> nat \<times> int)" where
  "createSatisfyingUTXOGroup findSolutions treeSortedBalances amountRequired excludedUTXOIDs =
     (case forEachTree (\<lambda>treeBalance. findSolutions treeBalance amountRequired excludedUTXOIDs)
             treeSortedBalances 0 (None, None) of
        Inl e \<Rightarrow> Inl (LegacyHelperError e)
      | Inr (treeSet, utxosSet) \<Rightarrow>
          (case utxosSet of
             None \<Rightarrow> Inl MustConsolidate
           | Some us \<Rightarrow>
               (case treeSet of
                  None \<Rightarrow> Inl MustConsolidate
                | Some t \<Rightarrow> Inr (us, t, calculateTotalSpend us))))"

definition singleGroupTry ::
  "(TreeBalance \<Rightarrow> int \<Rightarrow> string list \<Rightarrow> error + TXO list option) \<Rightarrow> LegacyBatch
    \<Rightarrow> TreeBalance list \<Rightarrow> int \<Rightarrow> legacy_error + LegacyGroup" where
  "singleGroupTry findSolutions b treeSortedBalances totalRequired =
     (case createSatisfyingUTXOGroup findSolutions treeSortedBalances totalRequired [] of
        Inl e \<Rightarrow> Inl e
      | Inr (us, t, amount) \<Rightarrow>
          if amount < totalRequired then Inl LegacyCouldNotSatisfy
          else Inr \<lparr>legacy_utxos = us, legacy_spendingTree = t, withdrawValue = withdrawTotal b,
                    legacy_group_outputs = legacy_outputs b\<rparr>)"

definition createSingleSpendingSolutionGroupIfPossible ::
  "(TreeBalance \<Rightarrow> int \<Rightarrow> string list \<Rightarrow> error + TXO list option) \<Rightarrow> LegacyBatch
    \<Rightarrow> TreeBalance list \<Rightarrow> int \<Rightarrow> legacy_error + LegacyGroup option" where
  "createSingleSpendingSolutionGroupIfPossible findSolutions b treeSortedBalances totalRequired =
     (case singleGroupTry findSolutions b treeSortedBalances totalRequired of
        Inl err \<Rightarrow> Inr None
      | Inr g \<Rightarrow> Inr (Some g))"

section \<open>Sample helpers and inputs\<close>

text \<open>
  Stand-ins for the imported helpers, to run the batch on concrete inputs: a hash that reads
  the token address, a search that offers the whole tree when its balance covers the
  amount, the input counts 1, 2 and 8 as valid for three outputs, and complex-path helpers
  that serve an output (or the unshield) when one tree alone covers it, and return no group
  otherwise.
\<close>

definition sampleFind :: "TreeBalance \<Rightarrow> int \<Rightarrow> error + TXO list option" where
  "sampleFind tb amount = (if balance tb < amount then Inr None else Inr (Some (utxos tb)))"

definition sampleForOutput ::
  "TokenData \<Rightarrow> TreeBalance list \<Rightarrow> TransactNote \<Rightarrow> TransactNote list \<Rightarrow> string list
    \<Rightarrow> error + (SpendingSolutionGroup list \<times> TransactNote list \<times> string list)" where
  "sampleForOutput td tsb n remaining excluded =
     (if list_ex (\<lambda>tb. note_value n \<le> balance tb) tsb
      then Inr ([\<lparr>spendingTree = 0, group_utxos = [], tokenOutputs = [n], unshieldValue = 0,
                  group_tokenData = td\<rparr>], tl remaining, excluded)
      else Inr ([], remaining, excluded))"

definition sampleForUnshield ::
  "TokenData \<Rightarrow> TreeBalance list \<Rightarrow> int \<Rightarrow> string list \<Rightarrow> error + SpendingSolutionGroup list" where
  "sampleForUnshield td tsb v excluded =
     (if list_ex (\<lambda>tb. v \<le> balance tb) tsb
      then Inr [\<lparr>spendingTree = 0, group_utxos = [], tokenOutputs = [], unshieldValue = v,
                 group_tokenData = td\<rparr>]
      else Inr [])"

definition sampleHelpers :: helpers where
  "sampleHelpers =
     \<lparr>getTokenDataHash = tokenAddress,
      findExactSolutionsOverTargetValue = sampleFind,
      isValidFor3Outputs = (\<lambda>n. n = 1 \<or> n = 2 \<or> n = 8),
      createSpendingSolutionGroupsForOutput = sampleForOutput,
      createSpendingSolutionGroupsForUnshield = sampleForUnshield\<rparr>"

definition sampleToken :: TokenData where
  "sampleToken = \<lparr>tokenType = ERC20, tokenAddress = ''a'', tokenSubID = ''0''\<rparr>"

definition noteOf :: "int \<Rightarrow> TransactNote" where
  "noteOf v = \<lparr>note_value = v, note_tokenHash = ''a'', note_tokenData = sampleToken\<rparr>"

definition txoOf :: "nat \<Rightarrow> nat \<Rightarrow> int \<Rightarrow> TXO" where
  "txoOf t p v = \<lparr>txo_tree = t, txo_position = p, txo_note = noteOf v\<rparr>"

definition treeOf :: "TXO list \<Rightarrow> TreeBalance" where
  "treeOf us = \<lparr>balance = calculateTotalSpend us, utxos = us\<rparr>"

definition unshieldOf :: "int \<Rightarrow> UnshieldData" where
  "unshieldOf v = \<lparr>toAddress = ''r'', unshield_value = v, unshield_tokenData = sampleToken\<rparr>"

definition sampleBatch :: "TransactNote list \<Rightarrow> (string \<rightharpoonup> UnshieldData) \<Rightarrow> TransactionBatch" where
  "sampleBatch outs m =
     (newTransactionBatch \<lparr>chain_type = 0, chain_id = 1\<rparr> 0)\<lparr>outputs := outs, unshieldDataMap := m\<rparr>"

definition twoTrees :: "int \<Rightarrow> int \<Rightarrow> TreeBalance list" where
  "twoTrees v w = [treeOf [txoOf 0 0 v], treeOf [txoOf 1 0 w]]"

definition groupFor :: "TransactNote \<Rightarrow> SpendingSolutionGroup" where
  "groupFor n = \<lparr>spendingTree = 0, group_utxos = [], tokenOutputs = [n], unshieldValue = 0,
                  group_tokenData = sampleToken\<rparr>"

text \<open>The largest amount of the unsigned 120-bit range the spec gives to amounts.\<close>

definition maxAmount :: int where
  "maxAmount = 2 ^ 120 - 1"

section \<open>Sums and the tree iteration\<close>

text \<open>
  The three \<^verbatim>\<open>reduce\<close> calls are plain sums. The iteration over the trees ends, when no
  search raises, either with the state it started from (no tree has a solution) or with the
  index and the solution of the last tree that has one.
\<close>

lemma foldl_add_sum:
  "foldl (\<lambda>left right. left + f right) a xs = (a::int) + sum_list (map f xs)"
  by (induction xs arbitrary: a) simp_all

lemma outputTotal_sum: "outputTotal xs = sum_list (map note_value xs)"
  by (simp add: outputTotal_def foldl_add_sum)

lemma tokenBalance_sum: "tokenBalance tsb = sum_list (map balance tsb)"
  by (simp add: tokenBalance_def foldl_add_sum)

lemma calculateTotalSpend_sum:
  "calculateTotalSpend us = sum_list (map (\<lambda>u. note_value (txo_note u)) us)"
  by (simp add: calculateTotalSpend_def foldl_add_sum)

lemma forEachTree_cases:
  assumes "forEachTree search tbs i st = Inr r"
  shows "(r = st \<and> (\<forall>j<length tbs. search (tbs ! j) = Inr None)) \<or>
         (\<exists>j us. j < length tbs \<and> search (tbs ! j) = Inr (Some us) \<and> r = (Some (i + j), Some us)
            \<and> (\<forall>k. j < k \<and> k < length tbs \<longrightarrow> search (tbs ! k) = Inr None))"
  using assms
proof (induction tbs arbitrary: i st)
  case Nil
  then show ?case by simp
next
  case (Cons tb rest)
  show ?case
  proof (cases "search tb")
    case (Inl e)
    with Cons.prems show ?thesis by simp
  next
    case (Inr found)
    show ?thesis
    proof (cases found)
      case None
      with Inr Cons.prems have run: "forEachTree search rest (Suc i) st = Inr r" by simp
      from Cons.IH[OF run] show ?thesis
      proof
        assume a: "r = st \<and> (\<forall>j<length rest. search (rest ! j) = Inr None)"
        have "\<forall>j<length (tb # rest). search ((tb # rest) ! j) = Inr None"
        proof (intro allI impI)
          fix j assume "j < length (tb # rest)"
          then show "search ((tb # rest) ! j) = Inr None"
            using a Inr None by (cases j) simp_all
        qed
        with a show ?thesis by blast
      next
        assume "\<exists>j us. j < length rest \<and> search (rest ! j) = Inr (Some us)
            \<and> r = (Some (Suc i + j), Some us)
            \<and> (\<forall>k. j < k \<and> k < length rest \<longrightarrow> search (rest ! k) = Inr None)"
        then obtain j us where j: "j < length rest" "search (rest ! j) = Inr (Some us)"
            "r = (Some (Suc i + j), Some us)"
            "\<forall>k. j < k \<and> k < length rest \<longrightarrow> search (rest ! k) = Inr None" by blast
        have later: "\<forall>k. Suc j < k \<and> k < length (tb # rest) \<longrightarrow> search ((tb # rest) ! k) = Inr None"
        proof (intro allI impI)
          fix k assume k: "Suc j < k \<and> k < length (tb # rest)"
          then obtain k' where "k = Suc k'" by (cases k) auto
          with k j(4) show "search ((tb # rest) ! k) = Inr None" by simp
        qed
        have "Suc j < length (tb # rest) \<and> search ((tb # rest) ! Suc j) = Inr (Some us)
              \<and> r = (Some (i + Suc j), Some us)"
          using j by simp
        with later show ?thesis by blast
      qed
    next
      case (Some sol)
      with Inr Cons.prems have run: "forEachTree search rest (Suc i) (Some i, Some sol) = Inr r"
        by simp
      from Cons.IH[OF run] show ?thesis
      proof
        assume a: "r = (Some i, Some sol) \<and> (\<forall>j<length rest. search (rest ! j) = Inr None)"
        have later: "\<forall>k. 0 < k \<and> k < length (tb # rest) \<longrightarrow> search ((tb # rest) ! k) = Inr None"
        proof (intro allI impI)
          fix k assume k: "0 < k \<and> k < length (tb # rest)"
          then obtain k' where "k = Suc k'" by (cases k) auto
          with k a show "search ((tb # rest) ! k) = Inr None" by simp
        qed
        have "0 < length (tb # rest) \<and> search ((tb # rest) ! 0) = Inr (Some sol)
              \<and> r = (Some (i + 0), Some sol)"
          using a Inr Some by simp
        with later show ?thesis by blast
      next
        assume "\<exists>j us. j < length rest \<and> search (rest ! j) = Inr (Some us)
            \<and> r = (Some (Suc i + j), Some us)
            \<and> (\<forall>k. j < k \<and> k < length rest \<longrightarrow> search (rest ! k) = Inr None)"
        then obtain j us where j: "j < length rest" "search (rest ! j) = Inr (Some us)"
            "r = (Some (Suc i + j), Some us)"
            "\<forall>k. j < k \<and> k < length rest \<longrightarrow> search (rest ! k) = Inr None" by blast
        have later: "\<forall>k. Suc j < k \<and> k < length (tb # rest) \<longrightarrow> search ((tb # rest) ! k) = Inr None"
        proof (intro allI impI)
          fix k assume k: "Suc j < k \<and> k < length (tb # rest)"
          then obtain k' where "k = Suc k'" by (cases k) auto
          with k j(4) show "search ((tb # rest) ! k) = Inr None" by simp
        qed
        have "Suc j < length (tb # rest) \<and> search ((tb # rest) ! Suc j) = Inr (Some us)
              \<and> r = (Some (i + Suc j), Some us)"
          using j by simp
        with later show ?thesis by blast
      qed
    qed
  qed
qed

lemma createSimpleSatisfyingUTXOGroup_result:
  assumes "createSimpleSatisfyingUTXOGroup h tsb a = Inr (us, t, amount)"
  shows "t < length tsb \<and> findExactSolutionsOverTargetValue h (tsb ! t) a = Inr (Some us)
         \<and> amount = calculateTotalSpend us
         \<and> (\<forall>k. t < k \<and> k < length tsb \<longrightarrow> findExactSolutionsOverTargetValue h (tsb ! k) a = Inr None)"
proof -
  let ?search = "\<lambda>tb. findExactSolutionsOverTargetValue h tb a"
  from assms obtain r where run: "forEachTree ?search tsb 0 (None, None) = Inr r"
    by (auto simp: createSimpleSatisfyingUTXOGroup_def split: sum.splits)
  with assms have r: "r = (Some t, Some us)" and am: "amount = calculateTotalSpend us"
    by (auto simp: createSimpleSatisfyingUTXOGroup_def split: sum.splits option.splits prod.splits)
  from forEachTree_cases[OF run] r am show ?thesis by auto
qed

section \<open>The simple path\<close>

text \<open>
  What the \<^verbatim>\<open>try\<close> block returns when it returns, how the \<^verbatim>\<open>catch\<close> clause maps its
  outcome, and the hand-over of \<^verbatim>\<open>generateValidSpendingSolutionGroups\<close> to the complex
  path.
\<close>

lemma simpleGroupTry_Inr:
  assumes "simpleGroupTry h b tokenData tokenHash tokenOuts tsb totalRequired = Inr g"
  shows "\<exists>us t amount.
           createSimpleSatisfyingUTXOGroup h tsb totalRequired = Inr (us, t, amount)
           \<and> \<not> amount < totalRequired
           \<and> \<not> (\<not> isValidFor3Outputs h (length us) \<and> length (outputs b) > 0
                  \<and> unshieldTotal b tokenHash > 0)
           \<and> g = \<lparr>spendingTree = t, group_utxos = us, tokenOutputs = tokenOuts,
                    unshieldValue = unshieldTotal b tokenHash, group_tokenData = tokenData\<rparr>"
  using assms
  by (auto simp: simpleGroupTry_def split: sum.splits prod.splits if_splits)

lemma simple_Some_iff:
  "createSimpleSpendingSolutionGroupsIfPossible h b tokenData tokenHash tokenOuts tsb totalRequired
     = Inr (Some g)
   \<longleftrightarrow> simpleGroupTry h b tokenData tokenHash tokenOuts tsb totalRequired = Inr g"
  by (simp add: createSimpleSpendingSolutionGroupsIfPossible_def split: sum.splits)

lemma simple_None_iff:
  "createSimpleSpendingSolutionGroupsIfPossible h b tokenData tokenHash tokenOuts tsb totalRequired
     = Inr None
   \<longleftrightarrow> (\<exists>e. simpleGroupTry h b tokenData tokenHash tokenOuts tsb totalRequired = Inl e)"
  by (simp add: createSimpleSpendingSolutionGroupsIfPossible_def split: sum.splits)

lemma generate_falls_back:
  assumes "balances (getTokenDataHash h tokenData) = Some tsb"
    and "\<not> totalRequiredOf b (getTokenDataHash h tokenData) > tokenBalance tsb"
    and "createSimpleSpendingSolutionGroupsIfPossible h b tokenData (getTokenDataHash h tokenData)
           (tokenOutputsOf b (getTokenDataHash h tokenData)) tsb
           (totalRequiredOf b (getTokenDataHash h tokenData)) = Inr None"
  shows "generateValidSpendingSolutionGroups h balances b tokenData
         = createComplexSatisfyingSpendingSolutionGroups h b tokenData
             (tokenOutputsOf b (getTokenDataHash h tokenData)) tsb"
  using assms by (simp add: generateValidSpendingSolutionGroups_def Let_def)

text \<open>
  Claim C1 says that the simple path returns the UTXO set and tree number of the first
  (lowest-numbered) tree with a solution, as the source's comment
  \<^verbatim>\<open>// Find first tree with spending solutions.\<close> does. The \<^verbatim>\<open>forEach\<close> keeps assigning,
  so the last tree with a solution wins (lemma \<open>createSimpleSatisfyingUTXOGroup_result\<close>).
  With two trees that each hold one UTXO of value 10 and a required amount of 10, tree 0 has
  a solution, and the function returns tree 1 and its UTXO.
\<close>

theorem simple_group_takes_last_tree:
  "findExactSolutionsOverTargetValue sampleHelpers (treeOf [txoOf 0 0 10]) 10
     = Inr (Some [txoOf 0 0 10])
   \<and> createSimpleSatisfyingUTXOGroup sampleHelpers
       [treeOf [txoOf 0 0 10], treeOf [txoOf 1 0 10]] 10
     = Inr ([txoOf 1 0 10], 1, 10)"
  by (simp add: createSimpleSatisfyingUTXOGroup_def sampleHelpers_def sampleFind_def treeOf_def
      calculateTotalSpend_def txoOf_def noteOf_def)

text \<open>The earlier \<^verbatim>\<open>createSatisfyingUTXOGroup\<close> runs the same loop, with the same result.\<close>

lemma legacy_group_takes_last_tree:
  "createSatisfyingUTXOGroup (\<lambda>tb amount excluded. sampleFind tb amount) (twoTrees 10 10) 10 []
   = Inr ([txoOf 1 0 10], 1, 10)"
  by (simp add: createSatisfyingUTXOGroup_def sampleFind_def twoTrees_def treeOf_def
      calculateTotalSpend_def txoOf_def noteOf_def)

text \<open>
  For every search and every list of tree balances: when \<^verbatim>\<open>createSimpleSatisfyingUTXOGroup\<close>
  returns, its tree number is a tree of the list, its UTXOs are the search's solution on that
  tree, its amount is their total spend, and the search has no solution on any later tree.
\<close>

theorem last_tree_with_solution_wins:
  assumes "createSimpleSatisfyingUTXOGroup h tsb amountRequired = Inr (us, t, amount)"
  shows "t < length tsb
         \<and> findExactSolutionsOverTargetValue h (tsb ! t) amountRequired = Inr (Some us)
         \<and> amount = calculateTotalSpend us
         \<and> (\<forall>k. t < k \<and> k < length tsb
               \<longrightarrow> findExactSolutionsOverTargetValue h (tsb ! k) amountRequired = Inr None)"
  using assms by (rule createSimpleSatisfyingUTXOGroup_result)

theorem last_tree_with_solution_wins_witness:
  "createSimpleSatisfyingUTXOGroup sampleHelpers (twoTrees 10 10) 10 = Inr ([txoOf 1 0 10], 1, 10)
   \<and> findExactSolutionsOverTargetValue sampleHelpers (twoTrees 10 10 ! 0) 10
       = Inr (Some [txoOf 0 0 10])
   \<and> findExactSolutionsOverTargetValue sampleHelpers (twoTrees 10 10 ! 1) 10
       = Inr (Some [txoOf 1 0 10])"
proof -
  have run: "createSimpleSatisfyingUTXOGroup sampleHelpers (twoTrees 10 10) 10
      = Inr ([txoOf 1 0 10], 1, 10)"
    by (simp add: createSimpleSatisfyingUTXOGroup_def sampleHelpers_def sampleFind_def
        twoTrees_def treeOf_def calculateTotalSpend_def txoOf_def noteOf_def)
  have first: "findExactSolutionsOverTargetValue sampleHelpers (twoTrees 10 10 ! 0) 10
       = Inr (Some [txoOf 0 0 10])"
    by (simp add: sampleHelpers_def sampleFind_def twoTrees_def treeOf_def calculateTotalSpend_def
        txoOf_def noteOf_def)
  from last_tree_with_solution_wins[OF run] run first show ?thesis by simp
qed

text \<open>
  Claim C2. Every group the simple path returns for a batch and a token hash, called as
  \<^verbatim>\<open>generateValidSpendingSolutionGroups\<close> calls it (the token's outputs, and their total
  plus the unshield total as the required amount), has UTXO values that sum to at least the
  sum of its token outputs' values plus its unshield value; its spending tree is a tree of
  the wallet, and its UTXOs are UTXOs of that tree's balance, so all of tree number
  \<^verbatim>\<open>spendingTree\<close>. Two facts about code outside the file are hypotheses: the search returns
  UTXOs of the tree balance it was given (the spec's "a subset"), and the wallet files every
  UTXO under its own tree number.
\<close>

theorem simple_group_invariant:
  assumes simple: "createSimpleSpendingSolutionGroupsIfPossible h b tokenData tokenHash
             (tokenOutputsOf b tokenHash) tsb (totalRequiredOf b tokenHash) = Inr (Some g)"
    and subset: "\<forall>tb amount us. findExactSolutionsOverTargetValue h tb amount = Inr (Some us)
             \<longrightarrow> set us \<subseteq> set (utxos tb)"
    and trees: "\<forall>i<length tsb. \<forall>u\<in>set (utxos (tsb ! i)). txo_tree u = i"
  shows "sum_list (map (\<lambda>u. note_value (txo_note u)) (group_utxos g))
           \<ge> sum_list (map note_value (tokenOutputs g)) + unshieldValue g
         \<and> spendingTree g < length tsb
         \<and> set (group_utxos g) \<subseteq> set (utxos (tsb ! spendingTree g))
         \<and> (\<forall>u\<in>set (group_utxos g). txo_tree u = spendingTree g)"
proof -
  from simple have "simpleGroupTry h b tokenData tokenHash (tokenOutputsOf b tokenHash) tsb
      (totalRequiredOf b tokenHash) = Inr g"
    by (simp add: simple_Some_iff)
  from simpleGroupTry_Inr[OF this] obtain us t amount where
    sat: "createSimpleSatisfyingUTXOGroup h tsb (totalRequiredOf b tokenHash) = Inr (us, t, amount)"
    and enough: "\<not> amount < totalRequiredOf b tokenHash"
    and g: "g = \<lparr>spendingTree = t, group_utxos = us, tokenOutputs = tokenOutputsOf b tokenHash,
                unshieldValue = unshieldTotal b tokenHash, group_tokenData = tokenData\<rparr>"
    by blast
  from createSimpleSatisfyingUTXOGroup_result[OF sat] have
    t: "t < length tsb"
    and found: "findExactSolutionsOverTargetValue h (tsb ! t) (totalRequiredOf b tokenHash) = Inr (Some us)"
    and amount: "amount = calculateTotalSpend us"
    by simp_all
  from subset found have sub: "set us \<subseteq> set (utxos (tsb ! t))" by blast
  from trees t sub have same: "\<forall>u\<in>set us. txo_tree u = t" by blast
  from enough amount have "sum_list (map (\<lambda>u. note_value (txo_note u)) us)
      \<ge> sum_list (map note_value (tokenOutputsOf b tokenHash)) + unshieldTotal b tokenHash"
    by (simp add: totalRequiredOf_def outputTotal_sum calculateTotalSpend_sum)
  with t sub same g show ?thesis by simp
qed

theorem simple_group_invariant_witness:
  "createSimpleSpendingSolutionGroupsIfPossible sampleHelpers
       (sampleBatch [noteOf 4] [''a'' \<mapsto> unshieldOf 3]) sampleToken ''a''
       (tokenOutputsOf (sampleBatch [noteOf 4] [''a'' \<mapsto> unshieldOf 3]) ''a'')
       [treeOf [txoOf 0 0 10]]
       (totalRequiredOf (sampleBatch [noteOf 4] [''a'' \<mapsto> unshieldOf 3]) ''a'')
     = Inr (Some \<lparr>spendingTree = 0, group_utxos = [txoOf 0 0 10], tokenOutputs = [noteOf 4],
                   unshieldValue = 3, group_tokenData = sampleToken\<rparr>)
   \<and> (10::int) \<ge> 4 + 3
   \<and> map txo_tree [txoOf 0 0 10] = [0]"
proof -
  let ?b = "sampleBatch [noteOf 4] [''a'' \<mapsto> unshieldOf 3]"
  let ?g = "\<lparr>spendingTree = 0, group_utxos = [txoOf 0 0 10], tokenOutputs = [noteOf 4],
             unshieldValue = 3, group_tokenData = sampleToken\<rparr>"
  have run: "createSimpleSpendingSolutionGroupsIfPossible sampleHelpers ?b sampleToken ''a''
       (tokenOutputsOf ?b ''a'') [treeOf [txoOf 0 0 10]] (totalRequiredOf ?b ''a'')
     = Inr (Some ?g)"
    by (simp add: createSimpleSpendingSolutionGroupsIfPossible_def simpleGroupTry_def
        createSimpleSatisfyingUTXOGroup_def sampleHelpers_def sampleFind_def treeOf_def
        calculateTotalSpend_def txoOf_def noteOf_def sampleBatch_def newTransactionBatch_def
        tokenOutputsOf_def totalRequiredOf_def outputTotal_def unshieldTotal_def unshieldOf_def)
  have subset: "\<forall>tb amount us. findExactSolutionsOverTargetValue sampleHelpers tb amount = Inr (Some us)
             \<longrightarrow> set us \<subseteq> set (utxos tb)"
    by (auto simp: sampleHelpers_def sampleFind_def split: if_splits)
  have trees: "\<forall>i<length [treeOf [txoOf 0 0 10]]. \<forall>u\<in>set (utxos ([treeOf [txoOf 0 0 10]] ! i)). txo_tree u = i"
    by (simp add: treeOf_def txoOf_def)
  from simple_group_invariant[OF run subset trees] run show ?thesis
    by (simp add: txoOf_def noteOf_def)
qed

section \<open>The complex path\<close>

text \<open>
  One round of the \<^verbatim>\<open>while\<close> loop: it ends when no output remains, or when the helper
  returns no group or raises; otherwise it appends the helper's groups and goes on with the
  arrays as the helper left them. The loop returns whenever every call of the helper that
  yields groups shortens the list of remaining outputs.
\<close>

lemma complexLoop_done:
  "complexLoop h td tsb ([], excluded, groups) = Some (Inr ([], excluded, groups))"
  by (subst complexLoop.simps) simp

lemma complexLoop_step:
  assumes "remaining \<noteq> []"
    and "createSpendingSolutionGroupsForOutput h td tsb (hd remaining) remaining excluded
           = Inr (outputGroups, remaining', excluded')"
    and "outputGroups \<noteq> []"
  shows "complexLoop h td tsb (remaining, excluded, groups)
         = complexLoop h td tsb (remaining', excluded', groups @ outputGroups)"
  using assms by (subst complexLoop.simps) simp

lemma complexLoop_break:
  assumes "remaining \<noteq> []"
    and "createSpendingSolutionGroupsForOutput h td tsb (hd remaining) remaining excluded
           = Inr ([], remaining', excluded')"
  shows "complexLoop h td tsb (remaining, excluded, groups)
         = Some (Inr (remaining', excluded', groups))"
  using assms by (subst complexLoop.simps) simp

lemma complexLoop_raise:
  assumes "remaining \<noteq> []"
    and "createSpendingSolutionGroupsForOutput h td tsb (hd remaining) remaining excluded = Inl e"
  shows "complexLoop h td tsb (remaining, excluded, groups) = Some (Inl e)"
  using assms by (subst complexLoop.simps) simp

lemma complexLoop_returns:
  assumes shrink: "\<And>remaining excluded outputGroups remaining' excluded'.
      remaining \<noteq> [] \<Longrightarrow>
      createSpendingSolutionGroupsForOutput h td tsb (hd remaining) remaining excluded
        = Inr (outputGroups, remaining', excluded') \<Longrightarrow> outputGroups \<noteq> []
      \<Longrightarrow> length remaining' < length remaining"
  shows "\<exists>r. complexLoop h td tsb (remaining, excluded, groups) = Some r"
proof (induction "length remaining" arbitrary: remaining excluded groups rule: less_induct)
  case less
  show ?case
  proof (cases "remaining = []")
    case True
    then show ?thesis by (simp add: complexLoop_done)
  next
    case False
    show ?thesis
    proof (cases "createSpendingSolutionGroupsForOutput h td tsb (hd remaining) remaining excluded")
      case (Inl e)
      with False show ?thesis by (simp add: complexLoop_raise)
    next
      case (Inr res)
      obtain outputGroups remaining' excluded' where res: "res = (outputGroups, remaining', excluded')"
        by (cases res) auto
      show ?thesis
      proof (cases "outputGroups = []")
        case True
        with False Inr res show ?thesis by (simp add: complexLoop_break)
      next
        case nonempty: False
        from shrink[OF False Inr[unfolded res] nonempty] have "length remaining' < length remaining" .
        from less[OF this] obtain r where
          "complexLoop h td tsb (remaining', excluded', groups @ outputGroups) = Some r" by blast
        with complexLoop_step[OF False Inr[unfolded res] nonempty] show ?thesis by simp
      qed
    qed
  qed
qed

section \<open>Runs of the sample helpers\<close>

lemma sample_hash: "getTokenDataHash sampleHelpers sampleToken = ''a''"
  by (simp add: sampleHelpers_def sampleToken_def)

lemma sample_balance: "map balance (twoTrees v w) = [v, w]"
  by (simp add: twoTrees_def treeOf_def calculateTotalSpend_def txoOf_def noteOf_def)

lemma sample_tokenBalance: "tokenBalance (twoTrees v w) = v + w"
  by (simp add: tokenBalance_sum sample_balance)

lemma sample_output:
  "createSpendingSolutionGroupsForOutput sampleHelpers sampleToken (twoTrees v w) n remaining excluded
   = (if note_value n \<le> v \<or> note_value n \<le> w
      then Inr ([groupFor n], tl remaining, excluded) else Inr ([], remaining, excluded))"
proof -
  have "list_ex (\<lambda>tb. note_value n \<le> balance tb) (twoTrees v w)
      \<longleftrightarrow> note_value n \<le> v \<or> note_value n \<le> w"
    by (simp add: twoTrees_def treeOf_def calculateTotalSpend_def txoOf_def noteOf_def)
  then show ?thesis
    by (simp add: sampleHelpers_def sampleForOutput_def groupFor_def)
qed

lemma sample_unshield:
  "createSpendingSolutionGroupsForUnshield sampleHelpers sampleToken (twoTrees v w) x excluded
   = (if x \<le> v \<or> x \<le> w
      then Inr [\<lparr>spendingTree = 0, group_utxos = [], tokenOutputs = [], unshieldValue = x,
                  group_tokenData = sampleToken\<rparr>]
      else Inr [])"
proof -
  have "list_ex (\<lambda>tb. x \<le> balance tb) (twoTrees v w) \<longleftrightarrow> x \<le> v \<or> x \<le> w"
    by (simp add: twoTrees_def treeOf_def calculateTotalSpend_def txoOf_def noteOf_def)
  then show ?thesis
    by (simp add: sampleHelpers_def sampleForUnshield_def)
qed

lemma sample_loop_two:
  assumes "v \<le> a \<or> v \<le> b" and "w \<le> a \<or> w \<le> b"
  shows "complexLoop sampleHelpers sampleToken (twoTrees a b) ([noteOf v, noteOf w], [], [])
         = Some (Inr ([], [], [groupFor (noteOf v), groupFor (noteOf w)]))"
proof -
  have "complexLoop sampleHelpers sampleToken (twoTrees a b) ([noteOf v, noteOf w], [], [])
      = complexLoop sampleHelpers sampleToken (twoTrees a b) ([noteOf w], [], [] @ [groupFor (noteOf v)])"
    using assms by (intro complexLoop_step) (simp_all add: sample_output noteOf_def)
  also have "\<dots> = complexLoop sampleHelpers sampleToken (twoTrees a b)
      ([], [], ([] @ [groupFor (noteOf v)]) @ [groupFor (noteOf w)])"
    using assms by (intro complexLoop_step) (simp_all add: sample_output noteOf_def)
  finally show ?thesis by (simp add: complexLoop_done)
qed

lemma sample_loop_unsatisfied:
  assumes "\<not> (v \<le> a \<or> v \<le> b)"
  shows "complexLoop sampleHelpers sampleToken (twoTrees a b) ([noteOf v], [], [])
         = Some (Inr ([noteOf v], [], []))"
  using assms by (intro complexLoop_break) (simp_all add: sample_output noteOf_def)

lemma sample_simple_none:
  assumes "a < r" and "b < r"
  shows "createSimpleSpendingSolutionGroupsIfPossible sampleHelpers bt sampleToken ''a'' outs
           (twoTrees a b) r = Inr None"
  using assms
  by (simp add: createSimpleSpendingSolutionGroupsIfPossible_def simpleGroupTry_def
      createSimpleSatisfyingUTXOGroup_def sampleHelpers_def sampleFind_def twoTrees_def treeOf_def
      calculateTotalSpend_def txoOf_def noteOf_def)

lemma sample_fields:
  "outputs (sampleBatch outs m) = outs" "unshieldDataMap (sampleBatch outs m) = m"
  by (simp_all add: sampleBatch_def)

lemma sample_unshield_value: "unshield_value (unshieldOf v) = v"
  by (simp add: unshieldOf_def)

lemma sample_outputs: "tokenOutputsOf (sampleBatch (map noteOf vs) m) ''a'' = map noteOf vs"
  by (simp add: tokenOutputsOf_def sample_fields noteOf_def)

lemma sample_required:
  "totalRequiredOf (sampleBatch (map noteOf vs) m) ''a''
   = sum_list vs + (case m ''a'' of None \<Rightarrow> 0 | Some u \<Rightarrow> unshield_value u)"
proof -
  have "map note_value (map noteOf vs) = vs"
    by (induction vs) (simp_all add: noteOf_def)
  then show ?thesis
    by (simp add: totalRequiredOf_def sample_outputs outputTotal_sum unshieldTotal_def
        sample_fields)
qed

section \<open>Termination of the complex loop\<close>

text \<open>
  The loop of \<^verbatim>\<open>createComplexSatisfyingSpendingSolutionGroups\<close> returns, from every state,
  when each call of \<^verbatim>\<open>createSpendingSolutionGroupsForOutput\<close> on a non-empty list of
  remaining outputs that yields groups leaves that list shorter.
\<close>

theorem complex_loop_returns:
  "(\<forall>remaining excluded outputGroups remaining' excluded'.
      remaining \<noteq> []
      \<and> createSpendingSolutionGroupsForOutput h td tsb (hd remaining) remaining excluded
          = Inr (outputGroups, remaining', excluded')
      \<and> outputGroups \<noteq> []
      \<longrightarrow> length remaining' < length remaining)
   \<Longrightarrow> \<exists>r. complexLoop h td tsb (remaining, excluded, groups) = Some r"
  by (rule complexLoop_returns) blast

theorem complex_loop_returns_witness:
  "\<exists>r. complexLoop sampleHelpers sampleToken (twoTrees 5 5)
         ([noteOf 4, noteOf 7, noteOf 4], [], []) = Some r"
proof (rule complex_loop_returns)
  show "\<forall>remaining excluded outputGroups remaining' excluded'.
      remaining \<noteq> []
      \<and> createSpendingSolutionGroupsForOutput sampleHelpers sampleToken (twoTrees 5 5)
            (hd remaining) remaining excluded
          = Inr (outputGroups, remaining', excluded')
      \<and> outputGroups \<noteq> []
      \<longrightarrow> length remaining' < length remaining"
    by (auto simp: sample_output split: if_splits)
qed

section \<open>Fallback to the complex path\<close>

text \<open>
  Claim C5. When the wallet has balances for the token, the total required does not exceed
  the aggregate balance and the simple path yields no group,
  \<^verbatim>\<open>generateValidSpendingSolutionGroups\<close> returns what
  \<^verbatim>\<open>createComplexSatisfyingSpendingSolutionGroups\<close> returns on the token's outputs. The
  loop of the complex path calls \<^verbatim>\<open>createSpendingSolutionGroupsForOutput\<close> on the first
  remaining output, with the remaining outputs and the excluded UTXO ids of the previous
  round, until no output remains or a call yields no group. If an output remains when the
  loop ends, the result is the consolidate-balance error. Otherwise, when the batch has
  unshield data for the token, \<^verbatim>\<open>createSpendingSolutionGroupsForUnshield\<close> is called with
  the token's unshield total and the excluded ids the loop ended with; no group from it is
  the consolidate-balance error, and groups are appended to the loop's. Groups are returned
  only after a loop that left no output and, with unshield data, a non-empty unshield
  result.
\<close>

theorem complex_fallback:
  "(balances (getTokenDataHash h tokenData) = Some tsb
      \<and> \<not> totalRequiredOf b (getTokenDataHash h tokenData) > tokenBalance tsb
      \<and> createSimpleSpendingSolutionGroupsIfPossible h b tokenData (getTokenDataHash h tokenData)
           (tokenOutputsOf b (getTokenDataHash h tokenData)) tsb
           (totalRequiredOf b (getTokenDataHash h tokenData)) = Inr None
    \<longrightarrow> generateValidSpendingSolutionGroups h balances b tokenData
        = createComplexSatisfyingSpendingSolutionGroups h b tokenData
            (tokenOutputsOf b (getTokenDataHash h tokenData)) tsb)
   \<and> (remaining \<noteq> []
      \<and> createSpendingSolutionGroupsForOutput h tokenData tsb (hd remaining) remaining excluded
          = Inr (outputGroups, remaining', excluded')
      \<and> outputGroups \<noteq> []
    \<longrightarrow> complexLoop h tokenData tsb (remaining, excluded, groups)
        = complexLoop h tokenData tsb (remaining', excluded', groups @ outputGroups))
   \<and> (remaining \<noteq> []
      \<and> createSpendingSolutionGroupsForOutput h tokenData tsb (hd remaining) remaining excluded
          = Inr ([], remaining', excluded')
    \<longrightarrow> complexLoop h tokenData tsb (remaining, excluded, groups)
        = Some (Inr (remaining', excluded', groups)))
   \<and> complexLoop h tokenData tsb ([], excluded, groups) = Some (Inr ([], excluded, groups))
   \<and> (complexLoop h tokenData tsb (tokenOuts, [], []) = Some (Inr (unsatisfied, ex, gs))
      \<and> unsatisfied \<noteq> []
    \<longrightarrow> createComplexSatisfyingSpendingSolutionGroups h b tokenData tokenOuts tsb
        = Some (Inl ConsolidateBalance))
   \<and> (complexLoop h tokenData tsb (tokenOuts, [], []) = Some (Inr ([], ex, gs))
      \<and> unshieldDataMap b (getTokenDataHash h tokenData) \<noteq> None
      \<and> createSpendingSolutionGroupsForUnshield h tokenData tsb
           (unshieldTotal b (getTokenDataHash h tokenData)) ex = Inr []
    \<longrightarrow> createComplexSatisfyingSpendingSolutionGroups h b tokenData tokenOuts tsb
        = Some (Inl ConsolidateBalance))
   \<and> (complexLoop h tokenData tsb (tokenOuts, [], []) = Some (Inr ([], ex, gs))
      \<and> unshieldDataMap b (getTokenDataHash h tokenData) \<noteq> None
      \<and> createSpendingSolutionGroupsForUnshield h tokenData tsb
           (unshieldTotal b (getTokenDataHash h tokenData)) ex = Inr unshieldGroups
      \<and> unshieldGroups \<noteq> []
    \<longrightarrow> createComplexSatisfyingSpendingSolutionGroups h b tokenData tokenOuts tsb
        = Some (Inr (gs @ unshieldGroups)))
   \<and> (complexLoop h tokenData tsb (tokenOuts, [], []) = Some (Inr ([], ex, gs))
      \<and> unshieldDataMap b (getTokenDataHash h tokenData) = None
    \<longrightarrow> createComplexSatisfyingSpendingSolutionGroups h b tokenData tokenOuts tsb
        = Some (Inr gs))
   \<and> (createComplexSatisfyingSpendingSolutionGroups h b tokenData tokenOuts tsb
        = Some (Inr result)
    \<longrightarrow> (\<exists>ex' gs'. complexLoop h tokenData tsb (tokenOuts, [], []) = Some (Inr ([], ex', gs'))
          \<and> (if unshieldDataMap b (getTokenDataHash h tokenData) = None then result = gs'
              else \<exists>ugs. createSpendingSolutionGroupsForUnshield h tokenData tsb
                           (unshieldTotal b (getTokenDataHash h tokenData)) ex' = Inr ugs
                         \<and> ugs \<noteq> [] \<and> result = gs' @ ugs)))"
proof (intro conjI impI)
  show "complexLoop h tokenData tsb ([], excluded, groups) = Some (Inr ([], excluded, groups))"
    by (rule complexLoop_done)
next
  assume "createComplexSatisfyingSpendingSolutionGroups h b tokenData tokenOuts tsb
        = Some (Inr result)"
  then show "\<exists>ex' gs'. complexLoop h tokenData tsb (tokenOuts, [], []) = Some (Inr ([], ex', gs'))
          \<and> (if unshieldDataMap b (getTokenDataHash h tokenData) = None then result = gs'
              else \<exists>ugs. createSpendingSolutionGroupsForUnshield h tokenData tsb
                           (unshieldTotal b (getTokenDataHash h tokenData)) ex' = Inr ugs
                         \<and> ugs \<noteq> [] \<and> result = gs' @ ugs)"
    by (auto simp: createComplexSatisfyingSpendingSolutionGroups_def Let_def
        split: option.splits sum.splits prod.splits if_splits)
qed (simp_all add: generate_falls_back complexLoop_step complexLoop_break
       createComplexSatisfyingSpendingSolutionGroups_def Let_def)

theorem complex_fallback_witness:
  "generateValidSpendingSolutionGroups sampleHelpers [''a'' \<mapsto> twoTrees 5 5]
      (sampleBatch [noteOf 4, noteOf 4] Map.empty) sampleToken
     = Some (Inr [groupFor (noteOf 4), groupFor (noteOf 4)])
   \<and> generateValidSpendingSolutionGroups sampleHelpers [''a'' \<mapsto> twoTrees 5 5]
      (sampleBatch [noteOf 7] Map.empty) sampleToken
     = Some (Inl ConsolidateBalance)
   \<and> generateValidSpendingSolutionGroups sampleHelpers [''a'' \<mapsto> twoTrees 5 5]
      (sampleBatch [] [''a'' \<mapsto> unshieldOf 7]) sampleToken
     = Some (Inl ConsolidateBalance)"
proof -
  let ?bal = "[''a'' \<mapsto> twoTrees 5 5]"
  let ?b1 = "sampleBatch [noteOf 4, noteOf 4] Map.empty"
  let ?b2 = "sampleBatch [noteOf 7] Map.empty"
  let ?b3 = "sampleBatch [] [''a'' \<mapsto> unshieldOf 7]"
  let ?h = "getTokenDataHash sampleHelpers sampleToken"
  note fall = complex_fallback[THEN conjunct1, THEN mp]
  have r1: "totalRequiredOf ?b1 ''a'' = 8" using sample_required[of "[4, 4]" Map.empty] by simp
  have r2: "totalRequiredOf ?b2 ''a'' = 7" using sample_required[of "[7]" Map.empty] by simp
  have r3: "totalRequiredOf ?b3 ''a'' = 7"
    using sample_required[of "[]" "[''a'' \<mapsto> unshieldOf 7]"]
    by (simp add: sample_unshield_value)
  have o1: "tokenOutputsOf ?b1 ''a'' = [noteOf 4, noteOf 4]"
    using sample_outputs[of "[4, 4]" Map.empty] by simp
  have o2: "tokenOutputsOf ?b2 ''a'' = [noteOf 7]"
    using sample_outputs[of "[7]" Map.empty] by simp
  have o3: "tokenOutputsOf ?b3 ''a'' = []"
    using sample_outputs[of "[]" "[''a'' \<mapsto> unshieldOf 7]"] by simp
  have "generateValidSpendingSolutionGroups sampleHelpers ?bal ?b1 sampleToken
      = createComplexSatisfyingSpendingSolutionGroups sampleHelpers ?b1 sampleToken
          (tokenOutputsOf ?b1 ?h) (twoTrees 5 5)"
    by (rule fall) (simp add: sample_hash r1 sample_tokenBalance sample_simple_none)
  also have "\<dots> = Some (Inr ([groupFor (noteOf 4), groupFor (noteOf 4)]))"
    by (rule complex_fallback[where ex = "[]", THEN conjunct2, THEN conjunct2, THEN conjunct2,
          THEN conjunct2, THEN conjunct2, THEN conjunct2, THEN conjunct2, THEN conjunct1, THEN mp])
      (simp add: sample_hash o1 sample_loop_two sample_fields)
  finally have one: "generateValidSpendingSolutionGroups sampleHelpers ?bal ?b1 sampleToken
      = Some (Inr [groupFor (noteOf 4), groupFor (noteOf 4)])" .
  have "generateValidSpendingSolutionGroups sampleHelpers ?bal ?b2 sampleToken
      = createComplexSatisfyingSpendingSolutionGroups sampleHelpers ?b2 sampleToken
          (tokenOutputsOf ?b2 ?h) (twoTrees 5 5)"
    by (rule fall) (simp add: sample_hash r2 sample_tokenBalance sample_simple_none)
  also have "\<dots> = Some (Inl ConsolidateBalance)"
    by (rule complex_fallback[where unsatisfied = "[noteOf 7]" and ex = "[]" and gs = "[]",
          THEN conjunct2, THEN conjunct2, THEN conjunct2, THEN conjunct2, THEN conjunct1, THEN mp])
      (simp add: sample_hash o2 sample_loop_unsatisfied)
  finally have two: "generateValidSpendingSolutionGroups sampleHelpers ?bal ?b2 sampleToken
      = Some (Inl ConsolidateBalance)" .
  have "generateValidSpendingSolutionGroups sampleHelpers ?bal ?b3 sampleToken
      = createComplexSatisfyingSpendingSolutionGroups sampleHelpers ?b3 sampleToken
          (tokenOutputsOf ?b3 ?h) (twoTrees 5 5)"
    by (rule fall) (simp add: sample_hash r3 sample_tokenBalance sample_simple_none)
  also have "\<dots> = Some (Inl ConsolidateBalance)"
    by (rule complex_fallback[where ex = "[]" and gs = "[]", THEN conjunct2, THEN conjunct2,
          THEN conjunct2, THEN conjunct2, THEN conjunct2, THEN conjunct1, THEN mp])
      (simp add: sample_hash o3 complexLoop_done sample_unshield unshieldTotal_def
        sample_fields sample_unshield_value)
  finally have three: "generateValidSpendingSolutionGroups sampleHelpers ?bal ?b3 sampleToken
      = Some (Inl ConsolidateBalance)" .
  from one two three show ?thesis by simp
qed

section \<open>The balance check\<close>

text \<open>
  Claim C3. For a batch and a token hash, the total required is the sum of the values of the
  batch's outputs with that token hash plus the value of the unshield recorded under it
  (zero when there is none). When the wallet has tree balances for the token and their sum
  is strictly less than the total required, \<^verbatim>\<open>generateValidSpendingSolutionGroups\<close> raises
  the balance-too-low error of the token's type and returns no group. A wallet with no
  balances for the token makes the call raise as well, with the error of the missing
  balance.
\<close>

theorem balance_too_low:
  "totalRequiredOf b tokenHash
     = sum_list (map note_value (filter (\<lambda>n. note_tokenHash n = tokenHash) (outputs b)))
       + (case unshieldDataMap b tokenHash of None \<Rightarrow> 0 | Some u \<Rightarrow> unshield_value u)
   \<and> (balances (getTokenDataHash h tokenData) = Some tsb
        \<and> sum_list (map balance tsb) < totalRequiredOf b (getTokenDataHash h tokenData)
      \<longrightarrow> generateValidSpendingSolutionGroups h balances b tokenData
          = Some (Inl (case tokenType tokenData of
                         ERC20 \<Rightarrow> BalanceTooLowERC20 (tokenAddress tokenData)
                       | ERC721 \<Rightarrow> BalanceTooLowNFT
                       | ERC1155 \<Rightarrow> BalanceTooLowNFT)))
   \<and> (balances (getTokenDataHash h tokenData) = None
      \<longrightarrow> generateValidSpendingSolutionGroups h balances b tokenData
          = Some (Inl (case tokenType tokenData of
                         ERC20 \<Rightarrow> NoBalanceERC20 (tokenAddress tokenData)
                       | ERC721 \<Rightarrow> NoBalanceNFT (getTokenDataHash h tokenData)
                       | ERC1155 \<Rightarrow> NoBalanceNFT (getTokenDataHash h tokenData))))"
proof (intro conjI impI)
  show "totalRequiredOf b tokenHash
      = sum_list (map note_value (filter (\<lambda>n. note_tokenHash n = tokenHash) (outputs b)))
        + (case unshieldDataMap b tokenHash of None \<Rightarrow> 0 | Some u \<Rightarrow> unshield_value u)"
    by (simp add: totalRequiredOf_def outputTotal_sum tokenOutputsOf_def unshieldTotal_def
        split: option.splits)
next
  assume "balances (getTokenDataHash h tokenData) = Some tsb
      \<and> sum_list (map balance tsb) < totalRequiredOf b (getTokenDataHash h tokenData)"
  then show "generateValidSpendingSolutionGroups h balances b tokenData
      = Some (Inl (case tokenType tokenData of
                         ERC20 \<Rightarrow> BalanceTooLowERC20 (tokenAddress tokenData)
                       | ERC721 \<Rightarrow> BalanceTooLowNFT
                       | ERC1155 \<Rightarrow> BalanceTooLowNFT))"
    by (simp add: generateValidSpendingSolutionGroups_def Let_def tokenBalance_sum
        split: TokenType.splits)
next
  assume "balances (getTokenDataHash h tokenData) = None"
  then show "generateValidSpendingSolutionGroups h balances b tokenData
      = Some (Inl (case tokenType tokenData of
                         ERC20 \<Rightarrow> NoBalanceERC20 (tokenAddress tokenData)
                       | ERC721 \<Rightarrow> NoBalanceNFT (getTokenDataHash h tokenData)
                       | ERC1155 \<Rightarrow> NoBalanceNFT (getTokenDataHash h tokenData)))"
    by (simp add: generateValidSpendingSolutionGroups_def Let_def split: TokenType.splits)
qed

theorem balance_too_low_witness:
  "totalRequiredOf (sampleBatch [noteOf 4] [''a'' \<mapsto> unshieldOf 3]) ''a'' = 7
   \<and> sum_list (map balance (twoTrees 5 1)) = 6
   \<and> generateValidSpendingSolutionGroups sampleHelpers [''a'' \<mapsto> twoTrees 5 1]
        (sampleBatch [noteOf 4] [''a'' \<mapsto> unshieldOf 3]) sampleToken
      = Some (Inl (BalanceTooLowERC20 ''a''))
   \<and> generateValidSpendingSolutionGroups sampleHelpers Map.empty
        (sampleBatch [noteOf 4] [''a'' \<mapsto> unshieldOf 3]) sampleToken
      = Some (Inl (NoBalanceERC20 ''a''))"
proof -
  let ?b = "sampleBatch [noteOf 4] [''a'' \<mapsto> unshieldOf 3]"
  note inst = balance_too_low[where b = ?b and h = sampleHelpers and tokenData = sampleToken
      and tokenHash = "''a''" and tsb = "twoTrees 5 1"]
  have req: "totalRequiredOf ?b ''a'' = 7"
    using inst[where balances = Map.empty]
    by (simp add: sample_fields sample_unshield_value noteOf_def)
  have bal: "sum_list (map balance (twoTrees 5 1)) = 6"
    by (simp add: sample_balance)
  have low: "generateValidSpendingSolutionGroups sampleHelpers [''a'' \<mapsto> twoTrees 5 1] ?b sampleToken
      = Some (Inl (BalanceTooLowERC20 ''a''))"
    using inst[where balances = "[''a'' \<mapsto> twoTrees 5 1]"] req bal
    by (simp add: sample_hash) (simp add: sampleToken_def)
  have none: "generateValidSpendingSolutionGroups sampleHelpers Map.empty ?b sampleToken
      = Some (Inl (NoBalanceERC20 ''a''))"
    using inst[where balances = Map.empty]
    by (simp add: sample_hash) (simp add: sampleToken_def)
  from req bal low none show ?thesis by simp
qed

section \<open>The three-output rule\<close>




section \<open>Adding unshield data\<close>

text \<open>
  Claim C6. \<^verbatim>\<open>addUnshieldData\<close> raises exactly when the batch already holds unshield data
  under the token hash of the new data, or the new data's value is zero; in every other
  case it returns normally and the batch's map holds the new data under that token hash,
  nothing else changed.
\<close>

theorem addUnshieldData_raises_iff:
  "((\<exists>e. fst (addUnshieldData h u b) = Inl e)
      \<longleftrightarrow> unshieldDataMap b (getTokenDataHash h (unshield_tokenData u)) \<noteq> None
          \<or> unshield_value u = 0)
   \<and> (unshieldDataMap b (getTokenDataHash h (unshield_tokenData u)) = None
        \<and> unshield_value u \<noteq> 0
      \<longrightarrow> addUnshieldData h u b
          = (Inr (), b\<lparr>unshieldDataMap :=
                        (unshieldDataMap b)(getTokenDataHash h (unshield_tokenData u) \<mapsto> u)\<rparr>))"
  by (simp add: addUnshieldData_def Let_def)

theorem addUnshieldData_raises_iff_witness:
  "fst (addUnshieldData sampleHelpers (unshieldOf 3) (sampleBatch [] Map.empty)) = Inr ()
   \<and> unshieldDataMap (snd (addUnshieldData sampleHelpers (unshieldOf 3) (sampleBatch [] Map.empty))) ''a''
      = Some (unshieldOf 3)
   \<and> fst (addUnshieldData sampleHelpers (unshieldOf 5) (sampleBatch [] [''a'' \<mapsto> unshieldOf 3]))
      = Inl DuplicateUnshield
   \<and> fst (addUnshieldData sampleHelpers (unshieldOf 0) (sampleBatch [] Map.empty))
      = Inl ZeroUnshieldValue"
proof -
  have h: "getTokenDataHash sampleHelpers (unshield_tokenData (unshieldOf v)) = ''a''" for v
    by (simp add: sampleHelpers_def unshieldOf_def sampleToken_def)
  have pre: "unshieldDataMap (sampleBatch [] Map.empty)
        (getTokenDataHash sampleHelpers (unshield_tokenData (unshieldOf 3))) = None
      \<and> unshield_value (unshieldOf 3) \<noteq> 0"
    by (simp add: h sampleBatch_def unshieldOf_def)
  from addUnshieldData_raises_iff[of sampleHelpers "unshieldOf 3" "sampleBatch [] Map.empty"] pre
  have ok: "addUnshieldData sampleHelpers (unshieldOf 3) (sampleBatch [] Map.empty)
      = (Inr (), (sampleBatch [] Map.empty)\<lparr>unshieldDataMap :=
           (unshieldDataMap (sampleBatch [] Map.empty))(''a'' \<mapsto> unshieldOf 3)\<rparr>)"
    by (simp add: h)
  have dup: "fst (addUnshieldData sampleHelpers (unshieldOf 5) (sampleBatch [] [''a'' \<mapsto> unshieldOf 3]))
      = Inl DuplicateUnshield"
    by (simp add: addUnshieldData_def h sampleBatch_def)
  have zero: "fst (addUnshieldData sampleHelpers (unshieldOf 0) (sampleBatch [] Map.empty))
      = Inl ZeroUnshieldValue"
    by (simp add: addUnshieldData_def h sampleBatch_def unshieldOf_def)
  from ok dup zero show ?thesis by simp
qed

text \<open>
  Claim C9. When \<^verbatim>\<open>addUnshieldData\<close> rejects its input (a duplicate token hash or a zero
  value), it raises and the batch it leaves is the batch it was given, in every field.
\<close>

theorem addUnshieldData_atomic:
  assumes "unshieldDataMap b (getTokenDataHash h (unshield_tokenData u)) \<noteq> None
           \<or> unshield_value u = 0"
  shows "(\<exists>e. fst (addUnshieldData h u b) = Inl e) \<and> snd (addUnshieldData h u b) = b"
  using assms by (auto simp: addUnshieldData_def Let_def)

theorem addUnshieldData_atomic_witness:
  "addUnshieldData sampleHelpers (unshieldOf 5) (sampleBatch [noteOf 1] [''a'' \<mapsto> unshieldOf 3])
     = (Inl DuplicateUnshield, sampleBatch [noteOf 1] [''a'' \<mapsto> unshieldOf 3])
   \<and> addUnshieldData sampleHelpers (unshieldOf 0) (sampleBatch [noteOf 1] Map.empty)
     = (Inl ZeroUnshieldValue, sampleBatch [noteOf 1] Map.empty)"
proof -
  have h: "getTokenDataHash sampleHelpers (unshield_tokenData (unshieldOf v)) = ''a''" for v
    by (simp add: sampleHelpers_def unshieldOf_def sampleToken_def)
  let ?b1 = "sampleBatch [noteOf 1] [''a'' \<mapsto> unshieldOf 3]"
  let ?b2 = "sampleBatch [noteOf 1] Map.empty"
  have p1: "unshieldDataMap ?b1 (getTokenDataHash sampleHelpers (unshield_tokenData (unshieldOf 5))) \<noteq> None
      \<or> unshield_value (unshieldOf 5) = 0"
    by (simp add: h sampleBatch_def)
  have p2: "unshieldDataMap ?b2 (getTokenDataHash sampleHelpers (unshield_tokenData (unshieldOf 0))) \<noteq> None
      \<or> unshield_value (unshieldOf 0) = 0"
    by (simp add: unshieldOf_def)
  have e1: "fst (addUnshieldData sampleHelpers (unshieldOf 5) ?b1) = Inl DuplicateUnshield"
    by (simp add: addUnshieldData_def h sampleBatch_def)
  have e2: "fst (addUnshieldData sampleHelpers (unshieldOf 0) ?b2) = Inl ZeroUnshieldValue"
    by (simp add: addUnshieldData_def h sampleBatch_def unshieldOf_def)
  from addUnshieldData_atomic[OF p1] addUnshieldData_atomic[OF p2] e1 e2 show ?thesis
    by (simp add: prod_eq_iff)
qed

section \<open>Sums of amounts\<close>

text \<open>
  Claim C7 says that each addition of the sums is checked against the unsigned 120-bit
  range. The sums are \<^verbatim>\<open>bigint\<close> additions with no check: a batch whose two outputs are
  within the range and whose total is one above it is served, from a wallet whose two tree
  balances are within the range and whose aggregate is one above it.
\<close>

theorem unchecked_sums_counterexample:
  "note_value (noteOf maxAmount) \<le> maxAmount \<and> note_value (noteOf 1) \<le> maxAmount
   \<and> map balance (twoTrees maxAmount 1) = [maxAmount, 1]
   \<and> outputTotal [noteOf maxAmount, noteOf 1] = maxAmount + 1
   \<and> maxAmount < outputTotal [noteOf maxAmount, noteOf 1]
   \<and> tokenBalance (twoTrees maxAmount 1) = maxAmount + 1
   \<and> generateValidSpendingSolutionGroups sampleHelpers [''a'' \<mapsto> twoTrees maxAmount 1]
        (sampleBatch [noteOf maxAmount, noteOf 1] Map.empty) sampleToken
      = Some (Inr [groupFor (noteOf maxAmount), groupFor (noteOf 1)])"
proof -
  let ?b = "sampleBatch [noteOf maxAmount, noteOf 1] Map.empty"
  let ?tsb = "twoTrees maxAmount 1"
  have big: "(1::int) < maxAmount" by (simp add: maxAmount_def)
  have vals: "note_value (noteOf maxAmount) \<le> maxAmount \<and> note_value (noteOf 1) \<le> maxAmount"
    using big by (simp add: noteOf_def)
  have total: "outputTotal [noteOf maxAmount, noteOf 1] = maxAmount + 1"
    by (simp add: outputTotal_sum noteOf_def)
  have outs: "tokenOutputsOf ?b ''a'' = [noteOf maxAmount, noteOf 1]"
    using sample_outputs[of "[maxAmount, 1]" Map.empty] by simp
  have req: "totalRequiredOf ?b ''a'' = maxAmount + 1"
    using sample_required[of "[maxAmount, 1]" Map.empty] by simp
  have simple: "createSimpleSpendingSolutionGroupsIfPossible sampleHelpers ?b sampleToken ''a''
      [noteOf maxAmount, noteOf 1] ?tsb (maxAmount + 1) = Inr None"
    using big by (intro sample_simple_none) simp_all
  have loop: "complexLoop sampleHelpers sampleToken ?tsb ([noteOf maxAmount, noteOf 1], [], [])
      = Some (Inr ([], [], [groupFor (noteOf maxAmount), groupFor (noteOf 1)]))"
    using big by (intro sample_loop_two) simp_all
  have run: "generateValidSpendingSolutionGroups sampleHelpers [''a'' \<mapsto> ?tsb] ?b sampleToken
      = Some (Inr [groupFor (noteOf maxAmount), groupFor (noteOf 1)])"
    by (simp add: generateValidSpendingSolutionGroups_def Let_def sample_hash outs req
        sample_tokenBalance simple createComplexSatisfyingSpendingSolutionGroups_def loop
        sample_fields)
  from vals total run show ?thesis
    by (simp add: sample_balance sample_tokenBalance)
qed

text \<open>
  Claim C7, amended. The sum of a token's output values, the sum of the per-tree balances,
  the total spend of a UTXO list and the total required are the exact integer sums of their
  terms, whatever their size.
\<close>

theorem sums_are_exact:
  "outputTotal tokenOuts = sum_list (map note_value tokenOuts)
   \<and> tokenBalance tsb = sum_list (map balance tsb)
   \<and> calculateTotalSpend us = sum_list (map (\<lambda>u. note_value (txo_note u)) us)
   \<and> totalRequiredOf b tokenHash
      = sum_list (map note_value (tokenOutputsOf b tokenHash)) + unshieldTotal b tokenHash"
  by (simp add: outputTotal_sum tokenBalance_sum calculateTotalSpend_sum totalRequiredOf_def)

section \<open>The simple path never raises\<close>

text \<open>
  Claim C10. \<^verbatim>\<open>createSimpleSpendingSolutionGroupsIfPossible\<close> returns normally on every input,
  with a group or with \<^verbatim>\<open>undefined\<close>, whatever its \<^verbatim>\<open>try\<close> block raises (the search's
  own exceptions included); so does the earlier
  \<^verbatim>\<open>createSingleSpendingSolutionGroupIfPossible\<close>. When the wallet has balances for the
  token that cover the total required and the \<^verbatim>\<open>try\<close> block of the simple path raises,
  \<^verbatim>\<open>generateValidSpendingSolutionGroups\<close> goes on and returns what the complex path
  returns.
\<close>

theorem simple_path_never_raises:
  "(\<exists>r. createSimpleSpendingSolutionGroupsIfPossible h b tokenData tokenHash tokenOuts tsb
           totalRequired = Inr r)
   \<and> (\<exists>r. createSingleSpendingSolutionGroupIfPossible findSolutions lb tsb totalRequired = Inr r)
   \<and> (balances (getTokenDataHash h tokenData) = Some tsb
        \<and> \<not> totalRequiredOf b (getTokenDataHash h tokenData) > tokenBalance tsb
        \<and> simpleGroupTry h b tokenData (getTokenDataHash h tokenData)
             (tokenOutputsOf b (getTokenDataHash h tokenData)) tsb
             (totalRequiredOf b (getTokenDataHash h tokenData)) = Inl e
      \<longrightarrow> generateValidSpendingSolutionGroups h balances b tokenData
          = createComplexSatisfyingSpendingSolutionGroups h b tokenData
              (tokenOutputsOf b (getTokenDataHash h tokenData)) tsb)"
proof (intro conjI impI)
  show "\<exists>r. createSimpleSpendingSolutionGroupsIfPossible h b tokenData tokenHash tokenOuts tsb
           totalRequired = Inr r"
    by (simp add: createSimpleSpendingSolutionGroupsIfPossible_def split: sum.splits)
  show "\<exists>r. createSingleSpendingSolutionGroupIfPossible findSolutions lb tsb totalRequired = Inr r"
    by (simp add: createSingleSpendingSolutionGroupIfPossible_def split: sum.splits)
next
  assume a: "balances (getTokenDataHash h tokenData) = Some tsb
        \<and> \<not> totalRequiredOf b (getTokenDataHash h tokenData) > tokenBalance tsb
        \<and> simpleGroupTry h b tokenData (getTokenDataHash h tokenData)
             (tokenOutputsOf b (getTokenDataHash h tokenData)) tsb
             (totalRequiredOf b (getTokenDataHash h tokenData)) = Inl e"
  then have "createSimpleSpendingSolutionGroupsIfPossible h b tokenData (getTokenDataHash h tokenData)
           (tokenOutputsOf b (getTokenDataHash h tokenData)) tsb
           (totalRequiredOf b (getTokenDataHash h tokenData)) = Inr None"
    by (simp add: simple_None_iff)
  with a show "generateValidSpendingSolutionGroups h balances b tokenData
          = createComplexSatisfyingSpendingSolutionGroups h b tokenData
              (tokenOutputsOf b (getTokenDataHash h tokenData)) tsb"
    by (simp add: generate_falls_back)
qed

theorem simple_path_never_raises_witness:
  "simpleGroupTry sampleHelpers (sampleBatch [noteOf 4, noteOf 4] Map.empty) sampleToken ''a''
      [noteOf 4, noteOf 4] (twoTrees 5 5) 8 = Inl NoSpendingSolutions
   \<and> createSimpleSpendingSolutionGroupsIfPossible sampleHelpers
      (sampleBatch [noteOf 4, noteOf 4] Map.empty) sampleToken ''a'' [noteOf 4, noteOf 4]
      (twoTrees 5 5) 8 = Inr None
   \<and> generateValidSpendingSolutionGroups sampleHelpers [''a'' \<mapsto> twoTrees 5 5]
        (sampleBatch [noteOf 4, noteOf 4] Map.empty) sampleToken
      = Some (Inr [groupFor (noteOf 4), groupFor (noteOf 4)])"
proof -
  let ?b = "sampleBatch [noteOf 4, noteOf 4] Map.empty"
  let ?tsb = "twoTrees 5 5"
  let ?h = "getTokenDataHash sampleHelpers sampleToken"
  have outs: "tokenOutputsOf ?b ''a'' = [noteOf 4, noteOf 4]"
    using sample_outputs[of "[4, 4]" Map.empty] by simp
  have req: "totalRequiredOf ?b ''a'' = 8"
    using sample_required[of "[4, 4]" Map.empty] by simp
  have failed: "simpleGroupTry sampleHelpers ?b sampleToken ''a'' [noteOf 4, noteOf 4] ?tsb 8
      = Inl NoSpendingSolutions"
    by (simp add: simpleGroupTry_def createSimpleSatisfyingUTXOGroup_def sampleHelpers_def
        sampleFind_def twoTrees_def treeOf_def calculateTotalSpend_def txoOf_def noteOf_def)
  have pre: "[''a'' \<mapsto> ?tsb] ?h = Some ?tsb
        \<and> \<not> totalRequiredOf ?b ?h > tokenBalance ?tsb
        \<and> simpleGroupTry sampleHelpers ?b sampleToken ?h (tokenOutputsOf ?b ?h) ?tsb
             (totalRequiredOf ?b ?h) = Inl NoSpendingSolutions"
    by (simp add: sample_hash outs req sample_tokenBalance failed)
  have complex: "createComplexSatisfyingSpendingSolutionGroups sampleHelpers ?b sampleToken
      [noteOf 4, noteOf 4] ?tsb = Some (Inr [groupFor (noteOf 4), groupFor (noteOf 4)])"
    by (simp add: createComplexSatisfyingSpendingSolutionGroups_def sample_loop_two sample_hash
        sample_fields)
  from simple_path_never_raises[where h = sampleHelpers and b = ?b and tokenData = sampleToken
      and tokenHash = "''a''" and tokenOuts = "[noteOf 4, noteOf 4]" and tsb = ?tsb
      and totalRequired = 8 and balances = "[''a'' \<mapsto> ?tsb]" and e = NoSpendingSolutions] pre
  have "(\<exists>r. createSimpleSpendingSolutionGroupsIfPossible sampleHelpers ?b sampleToken ''a''
            [noteOf 4, noteOf 4] ?tsb 8 = Inr r)
      \<and> generateValidSpendingSolutionGroups sampleHelpers [''a'' \<mapsto> ?tsb] ?b sampleToken
          = createComplexSatisfyingSpendingSolutionGroups sampleHelpers ?b sampleToken
              (tokenOutputsOf ?b ?h) ?tsb"
    by blast
  with failed complex show ?thesis
    by (simp add: outs sample_hash createSimpleSpendingSolutionGroupsIfPossible_def)
qed

section \<open>Frame of the reset operations\<close>

text \<open>
  Claim C8. \<^verbatim>\<open>resetOutputs\<close> empties the outputs list and leaves the unshield data map,
  the adapt ID, the chain and the batch's minimum gas price as they were;
  \<^verbatim>\<open>resetUnshieldData\<close> empties the unshield data map and leaves the outputs list, the
  adapt ID, the chain and the minimum gas price as they were.
\<close>

theorem reset_frames:
  "outputs (resetOutputs b) = []
   \<and> unshieldDataMap (resetOutputs b) = unshieldDataMap b
   \<and> adaptID (resetOutputs b) = adaptID b
   \<and> batch_chain (resetOutputs b) = batch_chain b
   \<and> overallBatchMinGasPrice (resetOutputs b) = overallBatchMinGasPrice b
   \<and> unshieldDataMap (resetUnshieldData b) = Map.empty
   \<and> outputs (resetUnshieldData b) = outputs b
   \<and> adaptID (resetUnshieldData b) = adaptID b
   \<and> batch_chain (resetUnshieldData b) = batch_chain b
   \<and> overallBatchMinGasPrice (resetUnshieldData b) = overallBatchMinGasPrice b"
  by (simp add: resetOutputs_def resetUnshieldData_def)

end
